theory Spec2Isabelle
  imports Complex_Main "HOL-Library.Sublist" "HOL-Library.Multiset"
begin

section \<open>Strings\<close>

text \<open>
  JavaScript strings are modelled as \<open>string\<close> (lists of characters).
  \<open>s.startsWith(p)\<close> is \<open>startsWith s p\<close>, \<open>s.includes(t)\<close> is
  \<open>includes_str s t\<close>: some position of \<open>s\<close> starts a copy of \<open>t\<close>.
\<close>

definition startsWith :: "string \<Rightarrow> string \<Rightarrow> bool" where
  "startsWith s p = prefix p s"

fun includes_str :: "string \<Rightarrow> string \<Rightarrow> bool" where
  "includes_str [] t = (t = [])"
| "includes_str (c # s) t = (prefix t (c # s) \<or> includes_str s t)"

text \<open>
  \<open>toLowerCase\<close> on the ASCII letters: \<open>A\<close> .. \<open>Z\<close> (codes 65 .. 90) move to
  \<open>a\<close> .. \<open>z\<close>, every other character stays. JavaScript's case mapping of
  characters beyond ASCII is not modelled.
\<close>

definition lower_char :: "char \<Rightarrow> char" where
  "lower_char c =
     (let n = (of_char c :: nat) in if 65 \<le> n \<and> n \<le> 90 then char_of (n + 32) else c)"

definition toLowerCase :: "string \<Rightarrow> string" where
  "toLowerCase s = map lower_char s"

section \<open>The data model\<close>

text \<open>
  The fields of the browser's \<open>File\<close> that the code reads: \<open>file.name\<close>,
  \<open>file.size\<close> (a byte count) and \<open>file.type\<close> (the mime string).
\<close>

record js_file =
  name :: string
  size_bytes :: nat
  mime_type :: string

text \<open>\<open>status: 'uploading' | 'completed' | 'error'\<close>\<close>

datatype upload_status = Uploading | Completed | Error

text \<open>
  \<open>interface FileWithProgress extends File\<close> of FileUpload.tsx. Numbers of
  JavaScript are modelled as reals: rounding of doubles is not modelled.
\<close>

record file_with_progress = js_file +
  file_id :: string
  progress :: real
  preview :: "string option"
  status :: upload_status

text \<open>
  \<open>toast({title, description, variant})\<close>. A description written as a template
  literal is kept as its pieces: the literal text and the interpolated values.
\<close>

datatype toast_variant = Default | Destructive

datatype piece = Str string | Num real

record toast =
  title :: string
  description :: "piece list"
  variant :: toast_variant

section \<open>FileUpload.tsx\<close>

text \<open>
  The state of the component (\<open>useState\<close>), together with a log of the calls
  it makes to its collaborators: the toasts shown and the arguments of every
  \<open>onFileSelect\<close> call, oldest first.
\<close>

record upload_state =
  selectedFiles :: "file_with_progress list"
  isUploading :: bool
  toasts :: "toast list"
  onFileSelect_calls :: "file_with_progress list list"

subsection \<open>validateFile\<close>

text \<open>
  \<open>maxFileSize\<close> is the prop, in MB. The function returns the verdict and shows a
  toast on rejection.
\<close>

definition too_large_toast :: "real \<Rightarrow> js_file \<Rightarrow> toast" where
  "too_large_toast maxFileSize f =
     \<lparr>title = ''File too large'',
      description = [Str (name f), Str '' exceeds '', Num maxFileSize, Str ''MB limit''],
      variant = Destructive\<rparr>"

definition validateFile :: "real \<Rightarrow> js_file \<Rightarrow> upload_state \<Rightarrow> bool \<times> upload_state" where
  "validateFile maxFileSize f s =
     (if real (size_bytes f) > maxFileSize * 1024 * 1024
      then (False, s\<lparr>toasts := toasts s @ [too_large_toast maxFileSize f]\<rparr>)
      else (True, s))"

subsection \<open>generatePreview\<close>

text \<open>
  What the \<open>FileReader\<close> does with \<open>readAsDataURL\<close>: it fires \<open>load\<close> with the
  data URL, or the read fails (\<open>error\<close> or \<open>abort\<close> is fired and \<open>load\<close> never
  is). The promise of \<open>generatePreview\<close> is resolved by the \<open>onload\<close> handler
  only; no other handler is installed, so after a failed read nothing settles it.
\<close>

datatype read_outcome = Loaded string | ReadFailed

datatype 'a promise = Resolved 'a | Unsettled

definition generatePreview :: "js_file \<Rightarrow> read_outcome \<Rightarrow> string option promise" where
  "generatePreview f rd =
     (if startsWith (mime_type f) ''image/''
      then (case rd of Loaded url \<Rightarrow> Resolved (Some url) | ReadFailed \<Rightarrow> Unsettled)
      else Resolved None)"

subsection \<open>simulateUpload\<close>

text \<open>
  One call of \<open>simulateUpload(fileId)\<close> owns a local \<open>progress\<close>, starting at 0,
  and an interval timer; \<open>interval_active\<close> is False once \<open>clearInterval\<close> has
  run, which is also when the promise is resolved.
\<close>

record upload_task =
  task_fileId :: string
  task_progress :: real
  interval_active :: bool

definition simulateUpload :: "string \<Rightarrow> upload_task" where
  "simulateUpload fileId = \<lparr>task_fileId = fileId, task_progress = 0, interval_active = True\<rparr>"

text \<open>
  The body of the interval callback. \<open>r\<close> is the value \<open>Math.random()\<close> returns
  at this tick, a number with \<open>0 \<le> r < 1\<close>. Both branches update the state with
  \<open>prev.map(f => f.id === fileId ? ... : f)\<close>.
\<close>

definition tick :: "real \<Rightarrow> upload_task \<times> file_with_progress list
    \<Rightarrow> upload_task \<times> file_with_progress list" where
  "tick r ts =
     (let t = fst ts; files = snd ts; p = task_progress t + r * 15 in
      if p \<ge> 100
      then (t\<lparr>task_progress := 100, interval_active := False\<rparr>,
            map (\<lambda>f. if file_id f = task_fileId t
                      then f\<lparr>progress := 100, status := Completed\<rparr> else f) files)
      else (t\<lparr>task_progress := p\<rparr>,
            map (\<lambda>f. if file_id f = task_fileId t then f\<lparr>progress := p\<rparr> else f) files))"

text \<open>
  Several tasks run side by side, each with its own timer. An event \<open>(k, r)\<close> is
  one firing of the timer of task \<open>k\<close> with the random draw \<open>r\<close>; a timer that
  was cleared (or that does not exist) does not fire.
\<close>

fun fire :: "nat \<times> real \<Rightarrow> upload_task list \<times> file_with_progress list
    \<Rightarrow> upload_task list \<times> file_with_progress list" where
  "fire (k, r) (tasks, files) =
     (if k < length tasks \<and> interval_active (tasks ! k)
      then (let res = tick r (tasks ! k, files) in (tasks[k := fst res], snd res))
      else (tasks, files))"

fun run_ticks :: "(nat \<times> real) list \<Rightarrow> upload_task list \<times> file_with_progress list
    \<Rightarrow> upload_task list \<times> file_with_progress list" where
  "run_ticks [] s = s"
| "run_ticks (e # es) s = run_ticks es (fire e s)"

subsection \<open>handleFiles\<close>

text \<open>
  A call that awaits a promise either goes on (\<open>Done\<close>, with the state it leaves)
  or stays suspended at an \<open>await\<close> whose promise has not settled (\<open>Blocked\<close>,
  with the state at that point).
\<close>

datatype 'a run = Done 'a | Blocked 'a

text \<open>
  Each file of the \<open>FileList\<close> comes with what its environment answers: the
  outcome of the \<open>FileReader\<close> for it, and the string that
  \<open>`${Date.now()}-${Math.random()}`\<close> evaluates to when its record is built.
  The record is \<open>{...file, id, progress: 0, status: 'uploading', preview}\<close>, with
  the fields of the file that the interface \<open>FileWithProgress\<close> inherits.
\<close>

definition new_record :: "js_file \<Rightarrow> string \<Rightarrow> string option \<Rightarrow> file_with_progress" where
  "new_record f i pv =
     \<lparr>name = name f, size_bytes = size_bytes f, mime_type = mime_type f,
      file_id = i, progress = 0, preview = pv, status = Uploading\<rparr>"

text \<open>The \<open>for (const file of Array.from(files))\<close> loop, \<open>newFiles\<close> its accumulator.\<close>

fun stage_files :: "real \<Rightarrow> (js_file \<times> read_outcome \<times> string) list
    \<Rightarrow> file_with_progress list \<Rightarrow> upload_state
    \<Rightarrow> (file_with_progress list \<times> upload_state) run" where
  "stage_files maxFileSize [] newFiles s = Done (newFiles, s)"
| "stage_files maxFileSize ((f, rd, i) # rest) newFiles s =
     (let v = validateFile maxFileSize f s in
      if fst v
      then (case generatePreview f rd of
              Resolved pv \<Rightarrow>
                stage_files maxFileSize rest (newFiles @ [new_record f i pv]) (snd v)
            | Unsettled \<Rightarrow> Blocked (newFiles, snd v))
      else stage_files maxFileSize rest newFiles (snd v))"

definition completed_toast :: "nat \<Rightarrow> toast" where
  "completed_toast n =
     \<lparr>title = ''Upload completed'',
      description = [Num (real n), Str '' file(s) uploaded successfully''],
      variant = Default\<rparr>"

text \<open>
  \<open>files\<close> is \<open>None\<close> for \<open>null\<close>. \<open>ticks\<close> are the timer events that happen
  while the call awaits \<open>Promise.all\<close> of the tasks it started; the promise is
  resolved once every task has resolved its own.
\<close>

definition handleFiles :: "real \<Rightarrow> bool \<Rightarrow> (js_file \<times> read_outcome \<times> string) list option
    \<Rightarrow> (nat \<times> real) list \<Rightarrow> upload_state \<Rightarrow> upload_state run" where
  "handleFiles maxFileSize multiple files ticks s =
     (case files of
        None \<Rightarrow> Done s
      | Some fs \<Rightarrow>
          (case stage_files maxFileSize fs [] (s\<lparr>isUploading := True\<rparr>) of
             Blocked st \<Rightarrow> Blocked (snd st)
           | Done st \<Rightarrow>
               (let newFiles = fst st;
                    s1 = snd st;
                    s2 = s1\<lparr>selectedFiles :=
                           (if multiple then selectedFiles s1 @ newFiles else newFiles)\<rparr>;
                    sim = run_ticks ticks
                            (map (\<lambda>f. simulateUpload (file_id f)) newFiles, selectedFiles s2);
                    s3 = s2\<lparr>selectedFiles := snd sim\<rparr>
                in if list_all (\<lambda>t. \<not> interval_active t) (fst sim)
                   then Done (s3\<lparr>isUploading := False,
                                 onFileSelect_calls := onFileSelect_calls s3 @ [newFiles],
                                 toasts := toasts s3 @ [completed_toast (length newFiles)]\<rparr>)
                   else Blocked s3)))"

section \<open>FileManager.tsx\<close>

text \<open>
  \<open>interface FileWithProgress\<close> of FileManager.tsx adds three optional fields. A
  \<open>Date\<close> is kept as the number \<open>getTime()\<close> returns for it.
\<close>

record managed_file = file_with_progress +
  category :: "string option"
  tags :: "string list option"
  uploadDate :: "int option"

datatype sort_key = ByName | BySize | ByDate

datatype sort_order = Asc | Desc

datatype view_mode = GridView | ListView

definition getFileCategory :: "managed_file \<Rightarrow> string" where
  "getFileCategory f =
     (let t = mime_type f in
      if startsWith t ''image/'' then ''image''
      else if startsWith t ''video/'' then ''video''
      else if startsWith t ''audio/'' then ''audio''
      else if includes_str t ''pdf'' then ''pdf''
      else if includes_str t ''doc'' then ''document''
      else if includes_str t ''zip'' \<or> includes_str t ''rar'' then ''archive''
      else ''other'')"

subsection \<open>filteredAndSortedFiles\<close>

text \<open>
  \<open>Array.prototype.sort(compareFn)\<close> is a stable sort: for a comparator that
  orders the elements consistently its result is the one stable arrangement,
  which insertion from the right computes. An element goes in front of the first
  element it does not compare greater than.
\<close>

fun insert_sorted :: "('a \<Rightarrow> 'a \<Rightarrow> int) \<Rightarrow> 'a \<Rightarrow> 'a list \<Rightarrow> 'a list" where
  "insert_sorted cmp x [] = [x]"
| "insert_sorted cmp x (y # ys) =
     (if cmp x y \<le> 0 then x # y # ys else y # insert_sorted cmp x ys)"

definition array_sort :: "('a \<Rightarrow> 'a \<Rightarrow> int) \<Rightarrow> 'a list \<Rightarrow> 'a list" where
  "array_sort cmp xs = foldr (insert_sorted cmp) xs []"

text \<open>
  The filter callback. \<open>searchTerm\<close> and \<open>filterType\<close> are the component's state.
\<close>

definition matches :: "string \<Rightarrow> string \<Rightarrow> managed_file \<Rightarrow> bool" where
  "matches searchTerm filterType f =
     (let matchesSearch = includes_str (toLowerCase (name f)) (toLowerCase searchTerm);
          matchesFilter = (filterType = ''all'' \<or> getFileCategory f = filterType)
      in matchesSearch \<and> matchesFilter)"

text \<open>
  The sort callback. \<open>localeCompare\<close> stands for \<open>String.prototype.localeCompare\<close>
  of the host, whose order depends on the locale; \<open>now\<close> is what
  \<open>new Date().getTime()\<close> returns while the view is computed.
\<close>

definition compareFn :: "(string \<Rightarrow> string \<Rightarrow> int) \<Rightarrow> int \<Rightarrow> sort_key \<Rightarrow> sort_order
    \<Rightarrow> managed_file \<Rightarrow> managed_file \<Rightarrow> int" where
  "compareFn localeCompare now sortBy sortOrder a b =
     (let comparison =
        (case sortBy of
           ByName \<Rightarrow> localeCompare (name a) (name b)
         | BySize \<Rightarrow> int (size_bytes a) - int (size_bytes b)
         | ByDate \<Rightarrow> (case uploadDate a of Some d \<Rightarrow> d | None \<Rightarrow> now)
                      - (case uploadDate b of Some d \<Rightarrow> d | None \<Rightarrow> now))
      in if sortOrder = Asc then comparison else - comparison)"

definition filteredAndSortedFiles :: "(string \<Rightarrow> string \<Rightarrow> int) \<Rightarrow> int \<Rightarrow> managed_file list
    \<Rightarrow> string \<Rightarrow> string \<Rightarrow> sort_key \<Rightarrow> sort_order \<Rightarrow> managed_file list" where
  "filteredAndSortedFiles localeCompare now files searchTerm filterType sortBy sortOrder =
     array_sort (compareFn localeCompare now sortBy sortOrder)
       (filter (matches searchTerm filterType) files)"

text \<open>
  The file statistics of the header: the number of files in the view and the byte
  total \<open>filteredAndSortedFiles.reduce((acc, file) => acc + file.size, 0)\<close>, which
  is what \<open>formatFileSize\<close> is given to display.
\<close>

definition total_size :: "managed_file list \<Rightarrow> nat" where
  "total_size view = foldl (\<lambda>acc f. acc + size_bytes f) 0 view"

subsection \<open>The component's state and handlers\<close>

text \<open>
  The \<open>useState\<close> cells of FileManager, with a log of the toasts shown and of the
  calls of the optional callbacks \<open>onFileSelect\<close> and \<open>onFileDelete\<close>.
\<close>

record manager_state =
  searchTerm :: string
  viewMode :: view_mode
  sortBy :: sort_key
  sortOrder :: sort_order
  filterType :: string
  selected_ids :: "string list"
  manager_toasts :: "toast list"
  onFileSelect_log :: "managed_file list"
  onFileDelete_log :: "string list"

text \<open>
  The props: \<open>files\<close>, whether each optional callback is given, and
  \<open>allowMultiSelect\<close>.
\<close>

record manager_props =
  files :: "managed_file list"
  has_onFileSelect :: bool
  has_onFileDelete :: bool
  allowMultiSelect :: bool

definition initial_manager :: manager_state where
  "initial_manager =
     \<lparr>searchTerm = [], viewMode = GridView, sortBy = ByName, sortOrder = Asc,
      filterType = ''all'', selected_ids = [], manager_toasts = [],
      onFileSelect_log = [], onFileDelete_log = []\<rparr>"

definition handleFileClick :: "manager_props \<Rightarrow> managed_file \<Rightarrow> manager_state \<Rightarrow> manager_state" where
  "handleFileClick props f s =
     (let s1 = (if allowMultiSelect props
                then s\<lparr>selected_ids :=
                        (if file_id f \<in> set (selected_ids s)
                         then filter (\<lambda>i. i \<noteq> file_id f) (selected_ids s)
                         else selected_ids s @ [file_id f])\<rparr>
                else s)
      in if has_onFileSelect props
         then s1\<lparr>onFileSelect_log := onFileSelect_log s1 @ [f]\<rparr> else s1)"

definition deleted_toast :: toast where
  "deleted_toast =
     \<lparr>title = ''File deleted'',
      description = [Str ''File has been removed from storage''],
      variant = Default\<rparr>"

definition handleDelete :: "manager_props \<Rightarrow> string \<Rightarrow> manager_state \<Rightarrow> manager_state" where
  "handleDelete props fileId s =
     (let s1 = (if has_onFileDelete props
                then s\<lparr>onFileDelete_log := onFileDelete_log s @ [fileId]\<rparr> else s)
      in s1\<lparr>manager_toasts := manager_toasts s1 @ [deleted_toast]\<rparr>)"

definition toggleSort :: "manager_state \<Rightarrow> manager_state" where
  "toggleSort s = s\<lparr>sortOrder := (if sortOrder s = Asc then Desc else Asc)\<rparr>"

text \<open>
  The changes of the query parameters that the controls make: \<open>setSearchTerm\<close>,
  \<open>setFilterType\<close>, \<open>setSortBy\<close>, \<open>toggleSort\<close> and \<open>setViewMode\<close>.
\<close>

datatype query_change =
    SetSearchTerm string
  | SetFilterType string
  | SetSortBy sort_key
  | ToggleSort
  | SetViewMode view_mode

fun apply_change :: "query_change \<Rightarrow> manager_state \<Rightarrow> manager_state" where
  "apply_change (SetSearchTerm t) s = s\<lparr>searchTerm := t\<rparr>"
| "apply_change (SetFilterType t) s = s\<lparr>filterType := t\<rparr>"
| "apply_change (SetSortBy k) s = s\<lparr>sortBy := k\<rparr>"
| "apply_change ToggleSort s = toggleSort s"
| "apply_change (SetViewMode v) s = s\<lparr>viewMode := v\<rparr>"

text \<open>The view the component renders from its props and state at clock reading \<open>now\<close>.\<close>

definition current_view :: "(string \<Rightarrow> string \<Rightarrow> int) \<Rightarrow> int \<Rightarrow> manager_props \<Rightarrow> manager_state
    \<Rightarrow> managed_file list" where
  "current_view localeCompare now props s =
     filteredAndSortedFiles localeCompare now (files props)
       (searchTerm s) (filterType s) (sortBy s) (sortOrder s)"

section \<open>Predicates of the statements\<close>


text \<open>
  The states of a simulation that \<open>handleFiles\<close> starts and the timers lead to:
  the tasks have different file ids; a running task is below 100 and every record
  with its id shows the task's progress and is \<open>Uploading\<close>; the records of a
  finished task are at 100 and \<open>Completed\<close>.
\<close>

definition sim_inv :: "upload_task list \<times> file_with_progress list \<Rightarrow> bool" where
  "sim_inv s =
     (distinct (map task_fileId (fst s)) \<and>
      (\<forall>t \<in> set (fst s).
         (interval_active t \<longrightarrow> task_progress t < 100) \<and>
         (\<forall>f \<in> set (snd s). file_id f = task_fileId t \<longrightarrow>
            (if interval_active t
             then progress f = task_progress t \<and> status f = Uploading
             else progress f = 100 \<and> status f = Completed))))"






section \<open>Example inputs\<close>

definition photo :: js_file where
  "photo = \<lparr>name = ''photo.png'', size_bytes = 2048, mime_type = ''image/png''\<rparr>"



text \<open>A file of 30 MB and the state of a fresh component.\<close>

definition big_video :: js_file where
  "big_video = \<lparr>name = ''clip.mp4'', size_bytes = 31457280, mime_type = ''video/mp4''\<rparr>"

definition fresh_upload :: upload_state where
  "fresh_upload = \<lparr>selectedFiles = [], isUploading = False, toasts = [], onFileSelect_calls = []\<rparr>"

definition example_file :: "string \<Rightarrow> nat \<Rightarrow> string \<Rightarrow> string \<Rightarrow> managed_file" where
  "example_file n sz ty i =
     \<lparr>name = n, size_bytes = sz, mime_type = ty, file_id = i, progress = 100,
      preview = None, status = Completed, category = None, tags = None, uploadDate = None\<rparr>"

definition multi_select_props :: manager_props where
  "multi_select_props =
     \<lparr>files = [example_file ''a.txt'' 1 ''text/plain'' ''id-a''],
      has_onFileSelect = True, has_onFileDelete = True, allowMultiSelect = True\<rparr>"


text \<open>Collections for the file manager, a comparison of names that ties all names, and
  the state and props of a manager that sorts by size.\<close>

definition size_sample :: "managed_file list" where
  "size_sample = [example_file ''a.txt'' 50 ''text/plain'' ''id-a'',
                  example_file ''b.txt'' 10 ''text/plain'' ''id-b'',
                  example_file ''c.txt'' 30 ''text/plain'' ''id-c'']"

definition tie_sample :: "managed_file list" where
  "tie_sample = [example_file ''x.txt'' 10 ''text/plain'' ''id-x'',
                 example_file ''y.txt'' 10 ''text/plain'' ''id-y'',
                 example_file ''z.txt'' 5 ''text/plain'' ''id-z'']"

definition date_sample :: "managed_file list" where
  "date_sample = [example_file ''new.txt'' 1 ''text/plain'' ''id-n'',
                  (example_file ''old.txt'' 2 ''text/plain'' ''id-o'')\<lparr>uploadDate := Some 1000\<rparr>]"

definition doc_sample :: "managed_file list" where
  "doc_sample =
     [example_file ''report.pdf'' 10 ''application/pdf'' ''id-p'',
      example_file ''photo.png'' 20 ''image/png'' ''id-i'',
      example_file ''notes.docx'' 30
        ''application/vnd.openxmlformats-officedocument.wordprocessingml.document'' ''id-d'']"

definition pdf_as_image :: managed_file where
  "pdf_as_image = example_file ''scan.pdf'' 1 ''image/pdf'' ''id-s''"

definition no_locale :: "string \<Rightarrow> string \<Rightarrow> int" where
  "no_locale a b = 0"

definition by_size :: manager_state where
  "by_size = initial_manager\<lparr>sortBy := BySize\<rparr>"

definition view_props :: "managed_file list \<Rightarrow> manager_props" where
  "view_props fs =
     \<lparr>files = fs, has_onFileSelect = False, has_onFileDelete = False, allowMultiSelect = False\<rparr>"

section \<open>The upload simulator\<close>













subsection \<open>The invariant\<close>





text \<open>
  What \<open>handleFiles\<close> sets up satisfies the invariant when the ids of the new
  records differ from each other and from the ids already in the collection.
\<close>

lemma staged_sim_inv:
  assumes "distinct (map file_id newFiles)"
    and "list_all (\<lambda>f. progress f = 0 \<and> status f = Uploading) newFiles"
    and "list_all (\<lambda>f. file_id f \<notin> file_id ` set newFiles) prev"
  shows "sim_inv (map (\<lambda>f. simulateUpload (file_id f)) newFiles, prev @ newFiles)"
  using assms
  by (auto simp: sim_inv_def comp_def simulateUpload_def list_all_iff)




subsection \<open>Runs of timer events\<close>




lemma run_ticks_no_tasks: "run_ticks ticks ([], fs) = ([], fs)"
  by (induction ticks) auto





subsection \<open>The example run\<close>




subsection \<open>Progress of a staged record\<close>




subsection \<open>One tick\<close>




section \<open>Staging a batch\<close>

lemma stage_files_all_rejected:
  "list_all (\<lambda>x. real (size_bytes (fst x)) > m * 1024 * 1024) fs \<Longrightarrow>
   stage_files m fs nf s =
     Done (nf, s\<lparr>toasts := toasts s @ map (\<lambda>x. too_large_toast m (fst x)) fs\<rparr>)"
proof (induction fs arbitrary: s)
  case Nil
  then show ?case by simp
next
  case (Cons x fs)
  obtain f rd i where x: "x = (f, rd, i)" by (cases x)
  from Cons.prems x have big: "real (size_bytes f) > m * 1024 * 1024"
    and rest: "list_all (\<lambda>x. real (size_bytes (fst x)) > m * 1024 * 1024) fs" by auto
  show ?case
    using big Cons.IH [OF rest] by (simp add: x validateFile_def)
qed

text \<open>
  C10. When validation rejects every file of a batch, \<open>handleFiles\<close> still runs to
  its end: one error toast per file, then \<open>onFileSelect\<close> called once, with the
  empty list, and the toast "Upload completed" reporting 0 files, which is not an
  error toast. The collection is kept in multiple mode and replaced by the empty
  list otherwise.
\<close>

theorem handleFiles_all_rejected:
  assumes "list_all (\<lambda>x. real (size_bytes (fst x)) > maxFileSize * 1024 * 1024) fs"
  shows "handleFiles maxFileSize multiple (Some fs) ticks s =
     Done (s\<lparr>selectedFiles := (if multiple then selectedFiles s else []),
             isUploading := False,
             toasts := toasts s @ map (\<lambda>x. too_large_toast maxFileSize (fst x)) fs
                         @ [completed_toast 0],
             onFileSelect_calls := onFileSelect_calls s @ [[]]\<rparr>)
     \<and> variant (completed_toast 0) = Default
     \<and> description (completed_toast 0) = [Num 0, Str '' file(s) uploaded successfully'']"
  by (simp add: handleFiles_def stage_files_all_rejected [OF assms] run_ticks_no_tasks
      completed_toast_def)

text \<open>C10, witness. The theorem at a batch of one file of 30 MB with the limit of 25 MB.\<close>

theorem handleFiles_all_rejected_witness:
  "list_all (\<lambda>x. real (size_bytes (fst x)) > 25 * 1024 * 1024)
     [(big_video, Loaded ''data:'', ''id-9'')]
   \<and> handleFiles 25 True (Some [(big_video, Loaded ''data:'', ''id-9'')]) [] fresh_upload =
       Done \<lparr>selectedFiles = [], isUploading = False,
             toasts = [too_large_toast 25 big_video, completed_toast 0],
             onFileSelect_calls = [[]]\<rparr>"
proof -
  have h: "list_all (\<lambda>x. real (size_bytes (fst x)) > 25 * 1024 * 1024)
     [(big_video, Loaded ''data:'', ''id-9'')]"
    by (simp add: big_video_def)
  from handleFiles_all_rejected [OF h, of True "[]" fresh_upload] h
  show ?thesis by (simp add: fresh_upload_def)
qed

subsection \<open>A preview whose read fails\<close>

text \<open>
  C3. The code at the failing input: an accepted image file whose read fails.
  Validation accepts the file, the promise of \<open>generatePreview\<close> is never settled,
  and \<open>handleFiles\<close> stays suspended at its \<open>await\<close>: no record is staged,
  \<open>isUploading\<close> stays true, \<open>onFileSelect\<close> is not called, whatever timer events
  follow.
\<close>

theorem preview_read_failure_blocks:
  "validateFile 25 photo s = (True, s)
   \<and> generatePreview photo ReadFailed = Unsettled
   \<and> handleFiles 25 multiple (Some [(photo, ReadFailed, ''id-1'')]) ticks s
       = Blocked (s\<lparr>isUploading := True\<rparr>)"
  by (simp add: handleFiles_def validateFile_def generatePreview_def photo_def startsWith_def)

section \<open>Selection and deletion in the file manager\<close>

lemma selected_ids_apply_change: "selected_ids (apply_change c s) = selected_ids s"
  by (cases c) (simp_all add: toggleSort_def)

text \<open>
  C5, as amended. \<open>handleDelete\<close> passes the id to \<open>onFileDelete\<close> (when the
  callback is given) and shows the toast "File deleted"; it leaves the selection
  as it is. Changes of the query parameters leave the selection as it is, too.
\<close>

theorem handleDelete_keeps_selection:
  "selected_ids (handleDelete props fileId s) = selected_ids s
   \<and> onFileDelete_log (handleDelete props fileId s) =
       (if has_onFileDelete props then onFileDelete_log s @ [fileId] else onFileDelete_log s)
   \<and> manager_toasts (handleDelete props fileId s) = manager_toasts s @ [deleted_toast]
   \<and> selected_ids (fold apply_change cs s) = selected_ids s"
proof -
  have "selected_ids (fold apply_change cs s) = selected_ids s"
    by (induction cs arbitrary: s) (simp_all add: selected_ids_apply_change)
  then show ?thesis by (simp add: handleDelete_def)
qed

text \<open>
  C5 as stated fails: a record is selected by a click and then deleted; the delete
  callback has received its id, and the id is still in the selection.
\<close>

theorem deleted_id_stays_selected:
  "onFileDelete_log (handleDelete multi_select_props ''id-a''
      (handleFileClick multi_select_props (example_file ''a.txt'' 1 ''text/plain'' ''id-a'')
         initial_manager)) = [''id-a'']
   \<and> ''id-a'' \<in> set (selected_ids (handleDelete multi_select_props ''id-a''
      (handleFileClick multi_select_props (example_file ''a.txt'' 1 ''text/plain'' ''id-a'')
         initial_manager)))"
  by (simp add: handleDelete_def handleFileClick_def multi_select_props_def example_file_def
      initial_manager_def)

section \<open>Facts about strings\<close>

lemma includes_str_Nil [simp]: "includes_str s []"
  by (induction s) auto

lemma matches_all [simp]: "matches [] ''all'' f"
  by (simp add: matches_def toLowerCase_def)







section \<open>Rejected files\<close>












section \<open>The sorted view\<close>

lemma mset_insert_sorted: "mset (insert_sorted cmp x ys) = add_mset x (mset ys)"
  by (induction ys) auto

lemma mset_array_sort: "mset (array_sort cmp xs) = mset xs"
  unfolding array_sort_def by (induction xs) (simp_all add: mset_insert_sorted)

lemma set_array_sort: "set (array_sort cmp xs) = set xs"
  using mset_array_sort [of cmp xs] by (metis set_mset_mset)

lemma array_sort_Cons: "array_sort cmp (x # xs) = insert_sorted cmp x (array_sort cmp xs)"
  by (simp add: array_sort_def)

lemma array_sort_Nil: "array_sort cmp [] = []"
  by (simp add: array_sort_def)

lemma filter_insert_sorted:
  "(\<And>y. y \<in> set ys \<Longrightarrow> P x \<Longrightarrow> P y \<Longrightarrow> cmp x y \<le> 0) \<Longrightarrow>
   filter P (insert_sorted cmp x ys) = (if P x then x # filter P ys else filter P ys)"
  by (induction ys) auto

lemma array_sort_stable:
  assumes "\<And>x y. x \<in> set xs \<Longrightarrow> y \<in> set xs \<Longrightarrow> P x \<Longrightarrow> P y \<Longrightarrow> cmp x y \<le> 0"
  shows "filter P (array_sort cmp xs) = filter P xs"
  using assms
proof (induction xs)
  case Nil
  then show ?case by (simp add: array_sort_Nil)
next
  case (Cons x xs)
  have IH: "filter P (array_sort cmp xs) = filter P xs"
    using Cons.prems by (intro Cons.IH) auto
  have "filter P (insert_sorted cmp x (array_sort cmp xs))
      = (if P x then x # filter P (array_sort cmp xs) else filter P (array_sort cmp xs))"
    using Cons.prems by (intro filter_insert_sorted) (auto simp: set_array_sort)
  then show ?case by (simp add: array_sort_Cons IH)
qed

lemma insert_sorted_cong:
  "(\<And>y. y \<in> set ys \<Longrightarrow> c1 x y = c2 x y) \<Longrightarrow> insert_sorted c1 x ys = insert_sorted c2 x ys"
  by (induction ys) auto

lemma array_sort_cong:
  assumes "\<And>x y. x \<in> set xs \<Longrightarrow> y \<in> set xs \<Longrightarrow> c1 x y = c2 x y"
  shows "array_sort c1 xs = array_sort c2 xs"
  using assms
proof (induction xs)
  case Nil
  then show ?case by (simp add: array_sort_Nil)
next
  case (Cons x xs)
  have IH: "array_sort c1 xs = array_sort c2 xs"
    using Cons.prems by (intro Cons.IH) auto
  have "insert_sorted c1 x (array_sort c2 xs) = insert_sorted c2 x (array_sort c2 xs)"
    using Cons.prems by (intro insert_sorted_cong) (auto simp: set_array_sort)
  then show ?case by (simp add: array_sort_Cons IH)
qed

lemma insert_sorted_key:
  fixes f :: "'a \<Rightarrow> int"
  shows "insert_sorted (\<lambda>a b. f a - f b) x ys = insort_key f x ys"
  by (induction ys) auto

lemma array_sort_key:
  fixes f :: "'a \<Rightarrow> int"
  shows "array_sort (\<lambda>a b. f a - f b) xs = sort_key f xs"
  by (induction xs) (simp_all add: array_sort_Nil array_sort_Cons insert_sorted_key)

lemma filter_key_single:
  "distinct (map f zs) \<Longrightarrow> k \<in> set zs \<Longrightarrow> filter (\<lambda>x. f k = f x) zs = [k]"
proof (induction zs)
  case Nil
  then show ?case by simp
next
  case (Cons z zs)
  show ?case
  proof (cases "k = z")
    case True
    have "filter (\<lambda>x. f z = f x) zs = []"
      using Cons.prems by (auto simp: filter_empty_conv)
    then show ?thesis using True by simp
  next
    case False
    with Cons.prems have kin: "k \<in> set zs" by simp
    from Cons.prems have "f z \<notin> f ` set zs" by simp
    with kin have ne: "f k \<noteq> f z" by (metis imageI)
    have "filter (\<lambda>x. f k = f x) zs = [k]"
      using Cons.prems kin by (intro Cons.IH) simp_all
    then show ?thesis using ne by simp
  qed
qed

lemma sort_key_neg_rev:
  fixes f :: "'a \<Rightarrow> int"
  assumes d: "distinct (map f xs)"
  shows "sort_key (\<lambda>a. - f a) xs = rev (sort_key f xs)"
proof (rule properties_for_sort_key)
  show "mset (rev (sort_key f xs)) = mset xs" by simp
  show "sorted (map (\<lambda>a. - f a) (rev (sort_key f xs)))"
  proof -
    have "sorted (map f (sort_key f xs))" by simp
    then have "sorted (rev (map uminus (map f (sort_key f xs))))"
      by (simp add: sorted_wrt_rev sorted_map sorted_wrt_map) 
    then show ?thesis by (simp add: rev_map comp_def)
  qed
  fix k assume k: "k \<in> set (rev (sort_key f xs))"
  have d2: "distinct (map f (rev (sort_key f xs)))"
    using d by (metis distinct_rev mset_eq_imp_distinct_iff mset_map mset_sort rev_map)
  have "filter (\<lambda>x. f k = f x) (rev (sort_key f xs)) = [k]"
    using d2 k by (rule filter_key_single)
  moreover have "filter (\<lambda>x. f k = f x) xs = [k]"
    using d k by (intro filter_key_single) simp_all
  ultimately show "filter (\<lambda>x. - f k = - f x) (rev (sort_key f xs)) = filter (\<lambda>x. - f k = - f x) xs"
    by simp
qed

lemma size_desc_is_rev_asc:
  assumes "distinct (map size_bytes (filter (matches st ft) fs))"
  shows "filteredAndSortedFiles lc now fs st ft BySize Desc
       = rev (filteredAndSortedFiles lc now fs st ft BySize Asc)"
proof -
  let ?xs = "filter (matches st ft) fs"
  let ?f = "\<lambda>a::managed_file. int (size_bytes a)"
  have d: "distinct (map ?f ?xs)"
    using assms by (simp add: distinct_map inj_on_def)
  have asc: "compareFn lc now BySize Asc = (\<lambda>a b. ?f a - ?f b)"
    by (intro ext) (simp add: compareFn_def)
  have desc: "compareFn lc now BySize Desc = (\<lambda>a b. (\<lambda>a. - ?f a) a - (\<lambda>a. - ?f a) b)"
    by (intro ext) (simp add: compareFn_def)
  show ?thesis
    unfolding filteredAndSortedFiles_def asc desc array_sort_key
    using d by (rule sort_key_neg_rev)
qed

subsection \<open>The view and the clock\<close>

text \<open>
  C4, as amended. Two evaluations of the query on the same collection with the same
  parameters, at the clock readings \<open>now1\<close> and \<open>now2\<close>, give the same ordered view
  when the sort key is name or size, or when every record of the filtered view has
  an upload date. (For one fixed clock reading the view is a function of its
  arguments.)
\<close>

theorem view_independent_of_clock:
  assumes "key \<noteq> ByDate \<or> list_all (\<lambda>f. uploadDate f \<noteq> None) (filter (matches st ft) fs)"
  shows "filteredAndSortedFiles lc now1 fs st ft key ord
       = filteredAndSortedFiles lc now2 fs st ft key ord"
  unfolding filteredAndSortedFiles_def
proof (rule array_sort_cong)
  fix x y
  assume mem: "x \<in> set (filter (matches st ft) fs)" "y \<in> set (filter (matches st ft) fs)"
  show "compareFn lc now1 key ord x y = compareFn lc now2 key ord x y"
  proof (cases "key = ByDate")
    case True
    with assms mem have "uploadDate x \<noteq> None" "uploadDate y \<noteq> None"
      by (simp_all add: list_all_iff)
    then show ?thesis using True by (auto simp: compareFn_def Let_def)
  next
    case False
    then show ?thesis by (cases key) (simp_all add: compareFn_def)
  qed
qed

text \<open>
  C4, witness. The theorem at a collection with an undated record, sorted by size, and at a
  dated record, sorted by date.
\<close>

theorem view_independent_of_clock_witness:
  "BySize \<noteq> ByDate
   \<and> filteredAndSortedFiles no_locale 500 date_sample [] ''all'' BySize Asc
       = filteredAndSortedFiles no_locale 2000 date_sample [] ''all'' BySize Asc
   \<and> filteredAndSortedFiles no_locale 500 date_sample [] ''all'' BySize Asc
       = [date_sample ! 0, date_sample ! 1]
   \<and> list_all (\<lambda>f. uploadDate f \<noteq> None) (filter (matches [] ''all'') [date_sample ! 1])
   \<and> filteredAndSortedFiles no_locale 500 [date_sample ! 1] [] ''all'' ByDate Asc
       = filteredAndSortedFiles no_locale 2000 [date_sample ! 1] [] ''all'' ByDate Asc"
proof -
  have h1: "BySize \<noteq> ByDate" by simp
  have h2: "list_all (\<lambda>f. uploadDate f \<noteq> None) (filter (matches [] ''all'') [date_sample ! 1])"
    by (simp add: date_sample_def example_file_def)
  have e: "filteredAndSortedFiles no_locale 500 date_sample [] ''all'' BySize Asc
       = [date_sample ! 0, date_sample ! 1]"
    by (simp add: filteredAndSortedFiles_def array_sort_def compareFn_def date_sample_def
      example_file_def)
  from view_independent_of_clock [OF disjI1 [OF h1], where lc = no_locale and ?now1.0 = 500
         and ?now2.0 = 2000 and ord = Asc and fs = date_sample and st = "[]" and ft = "''all''"]
       view_independent_of_clock [OF disjI2 [OF h2], where lc = no_locale and ?now1.0 = 500
         and ?now2.0 = 2000 and ord = Asc and key = ByDate]
       h1 h2 e
  show ?thesis by simp
qed

text \<open>
  C4 as stated fails: sorted by date, an undated record stands before a record dated
  1000 when the view is computed at clock reading 500, and after it at 2000.
\<close>

theorem undated_order_depends_on_clock:
  "filteredAndSortedFiles no_locale 500 date_sample [] ''all'' ByDate Asc
     = [date_sample ! 0, date_sample ! 1]
   \<and> filteredAndSortedFiles no_locale 2000 date_sample [] ''all'' ByDate Asc
     = [date_sample ! 1, date_sample ! 0]
   \<and> filteredAndSortedFiles no_locale 500 date_sample [] ''all'' ByDate Asc
     \<noteq> filteredAndSortedFiles no_locale 2000 date_sample [] ''all'' ByDate Asc"
  by (simp add: filteredAndSortedFiles_def array_sort_def compareFn_def date_sample_def
      example_file_def)

subsection \<open>The view and the filter\<close>




text \<open>The byte total of a view that holds one of three files, and of the whole collection.\<close>

lemma view_total_example:
  "total_size (filteredAndSortedFiles no_locale 0 doc_sample ''NOTES'' ''all'' ByName Asc) = 30
   \<and> total_size doc_sample = 60"
  by code_simp

subsection \<open>Sorting by size and stability\<close>

lemma toggle_view_rev:
  assumes k: "sortBy s = BySize"
    and d: "distinct (map size_bytes (filter (matches (searchTerm s) (filterType s)) (files props)))"
  shows "current_view lc now props (toggleSort s) = rev (current_view lc now props s)"
proof (cases "sortOrder s")
  case Asc
  then show ?thesis
    using size_desc_is_rev_asc [OF d] k by (simp add: current_view_def toggleSort_def)
next
  case Desc
  then show ?thesis
    using size_desc_is_rev_asc [OF d] k by (simp add: current_view_def toggleSort_def)
qed

lemma view_stable:
  assumes "\<forall>x \<in> set (files props). \<forall>y \<in> set (files props).
      P x \<and> P y \<longrightarrow> compareFn lc now (sortBy s) (sortOrder s) x y = 0"
  shows "filter P (current_view lc now props s)
       = filter P (filter (matches (searchTerm s) (filterType s)) (files props))"
  unfolding current_view_def filteredAndSortedFiles_def
  using assms by (intro array_sort_stable) auto

lemma sample_asc:
  assumes "size_bytes a = 50" "size_bytes b = 10" "size_bytes c = 30"
    "sortBy s = BySize" "sortOrder s = Asc" "searchTerm s = []" "filterType s = ''all''"
    "files props = [a, b, c]"
  shows "current_view lc now props s = [b, c, a]"
  using assms
  by (simp add: current_view_def filteredAndSortedFiles_def array_sort_def compareFn_def)

text \<open>
  C8. A collection with the sizes 50, 10, 30, sorted by size ascending, is shown in
  the order 10, 30, 50, and after \<open>toggleSort\<close> in the reverse order. Sorted by
  size, the toggled view is the reverse of the view whenever the sizes in the view
  differ from each other. For every sort key and order, records that compare equal
  keep the order they have in the collection.
\<close>

theorem size_sort_toggle_and_stability:
  "(size_bytes a = 50 \<and> size_bytes b = 10 \<and> size_bytes c = 30
      \<and> sortBy s = BySize \<and> sortOrder s = Asc \<and> searchTerm s = [] \<and> filterType s = ''all''
      \<and> files props = [a, b, c]
     \<longrightarrow> current_view lc now props s = [b, c, a]
         \<and> current_view lc now props (toggleSort s) = [a, c, b])
   \<and> (sortBy s = BySize
      \<and> distinct (map size_bytes (filter (matches (searchTerm s) (filterType s)) (files props)))
     \<longrightarrow> current_view lc now props (toggleSort s) = rev (current_view lc now props s))
   \<and> ((\<forall>x \<in> set (files props). \<forall>y \<in> set (files props).
          P x \<and> P y \<longrightarrow> compareFn lc now (sortBy s) (sortOrder s) x y = 0)
     \<longrightarrow> filter P (current_view lc now props s)
         = filter P (filter (matches (searchTerm s) (filterType s)) (files props)))"
proof (intro conjI impI)
  assume a: "size_bytes a = 50 \<and> size_bytes b = 10 \<and> size_bytes c = 30
      \<and> sortBy s = BySize \<and> sortOrder s = Asc \<and> searchTerm s = [] \<and> filterType s = ''all''
      \<and> files props = [a, b, c]"
  then show asc: "current_view lc now props s = [b, c, a]"
    by (intro sample_asc) simp_all
  have "distinct (map size_bytes (filter (matches (searchTerm s) (filterType s)) (files props)))"
    using a by simp
  then have "current_view lc now props (toggleSort s) = rev (current_view lc now props s)"
    using a by (intro toggle_view_rev) simp_all
  then show "current_view lc now props (toggleSort s) = [a, c, b]"
    using asc by simp
next
  assume "sortBy s = BySize
      \<and> distinct (map size_bytes (filter (matches (searchTerm s) (filterType s)) (files props)))"
  then show "current_view lc now props (toggleSort s) = rev (current_view lc now props s)"
    by (intro toggle_view_rev) simp_all
next
  assume "\<forall>x \<in> set (files props). \<forall>y \<in> set (files props).
          P x \<and> P y \<longrightarrow> compareFn lc now (sortBy s) (sortOrder s) x y = 0"
  then show "filter P (current_view lc now props s)
         = filter P (filter (matches (searchTerm s) (filterType s)) (files props))"
    by (rule view_stable)
qed

text \<open>
  C8, witness. The theorem at the sizes 50, 10, 30, and at a collection with two records of size
  10, which stand in the order of the collection in both sort orders.
\<close>

theorem size_sort_toggle_and_stability_witness:
  "map size_bytes size_sample = [50, 10, 30]
   \<and> current_view no_locale 0 (view_props size_sample) by_size
       = [size_sample ! 1, size_sample ! 2, size_sample ! 0]
   \<and> current_view no_locale 0 (view_props size_sample) (toggleSort by_size)
       = [size_sample ! 0, size_sample ! 2, size_sample ! 1]
   \<and> current_view no_locale 0 (view_props size_sample) (toggleSort by_size)
       = rev (current_view no_locale 0 (view_props size_sample) by_size)
   \<and> filter (\<lambda>f. size_bytes f = 10) (current_view no_locale 0 (view_props tie_sample) by_size)
       = [tie_sample ! 0, tie_sample ! 1]
   \<and> filter (\<lambda>f. size_bytes f = 10)
        (current_view no_locale 0 (view_props tie_sample) (toggleSort by_size))
       = [tie_sample ! 0, tie_sample ! 1]"
proof -
  have h1: "size_bytes (size_sample ! 0) = 50 \<and> size_bytes (size_sample ! 1) = 10
      \<and> size_bytes (size_sample ! 2) = 30
      \<and> sortBy by_size = BySize \<and> sortOrder by_size = Asc \<and> searchTerm by_size = []
      \<and> filterType by_size = ''all''
      \<and> files (view_props size_sample) = [size_sample ! 0, size_sample ! 1, size_sample ! 2]"
    by (simp add: size_sample_def example_file_def by_size_def initial_manager_def view_props_def)
  have h2: "sortBy by_size = BySize
      \<and> distinct (map size_bytes (filter (matches (searchTerm by_size) (filterType by_size))
            (files (view_props size_sample))))"
    by (simp add: by_size_def initial_manager_def view_props_def)
      (simp add: size_sample_def example_file_def)
  have h3: "\<forall>x \<in> set (files (view_props tie_sample)). \<forall>y \<in> set (files (view_props tie_sample)).
      size_bytes x = 10 \<and> size_bytes y = 10
        \<longrightarrow> compareFn no_locale 0 (sortBy s) (sortOrder s) x y = 0"
    if "sortBy s = BySize" for s
    using that by (simp add: compareFn_def)
  have s1: "sortBy by_size = BySize" and s2: "sortBy (toggleSort by_size) = BySize"
    by (simp_all add: by_size_def initial_manager_def toggleSort_def)
  have f: "filter (\<lambda>f. size_bytes f = 10)
        (filter (matches (searchTerm s) (filterType s)) (files (view_props tie_sample)))
      = [tie_sample ! 0, tie_sample ! 1]"
    if "searchTerm s = []" "filterType s = ''all''" for s
    using that by (simp add: view_props_def) (simp add: tie_sample_def example_file_def)
  have q1: "searchTerm by_size = []" "filterType by_size = ''all''"
    and q2: "searchTerm (toggleSort by_size) = []" "filterType (toggleSort by_size) = ''all''"
    by (simp_all add: by_size_def initial_manager_def toggleSort_def)
  have m: "map size_bytes size_sample = [50, 10, 30]"
    by (simp add: size_sample_def example_file_def)
  from size_sort_toggle_and_stability
         [of "size_sample ! 0" "size_sample ! 1" "size_sample ! 2" by_size
             "view_props size_sample" no_locale 0 "\<lambda>f. True"]
       size_sort_toggle_and_stability
         [of "tie_sample ! 0" "tie_sample ! 1" "tie_sample ! 2" by_size
             "view_props tie_sample" no_locale 0 "\<lambda>f. size_bytes f = 10"]
       size_sort_toggle_and_stability
         [of "tie_sample ! 0" "tie_sample ! 1" "tie_sample ! 2" "toggleSort by_size"
             "view_props tie_sample" no_locale 0 "\<lambda>f. size_bytes f = 10"]
       h1 h2 h3 [OF s1] h3 [OF s2] f [OF q1] f [OF q2] m
  show ?thesis by simp
qed

text \<open>With a tie the descending view is not the reverse of the ascending one.\<close>

lemma tie_views:
  "filteredAndSortedFiles no_locale 0 tie_sample [] ''all'' BySize Asc
     = [tie_sample ! 2, tie_sample ! 0, tie_sample ! 1]
   \<and> filteredAndSortedFiles no_locale 0 tie_sample [] ''all'' BySize Desc
     = [tie_sample ! 0, tie_sample ! 1, tie_sample ! 2]"
  by (simp add: filteredAndSortedFiles_def array_sort_def compareFn_def tie_sample_def
      example_file_def)

subsection \<open>The category classifier\<close>

text \<open>
  C9, as amended. A mime type that contains "pdf" is never classified as document,
  and it is classified as pdf unless it starts with "image/", "video/" or "audio/",
  which are tested first. Filtering the collection of a pdf, a png and a docx file by
  "document" gives the docx file alone. The classifier is total: its result is one
  of the seven categories, and it is "other" when no test matches.
\<close>

theorem category_of_pdf:
  "(includes_str (mime_type f) ''pdf'' \<longrightarrow> getFileCategory f \<noteq> ''document'')
   \<and> (includes_str (mime_type f) ''pdf'' \<and> \<not> startsWith (mime_type f) ''image/''
        \<and> \<not> startsWith (mime_type f) ''video/'' \<and> \<not> startsWith (mime_type f) ''audio/''
       \<longrightarrow> getFileCategory f = ''pdf'')
   \<and> filteredAndSortedFiles lc now doc_sample [] ''document'' key ord = [doc_sample ! 2]
   \<and> getFileCategory f \<in>
        {''image'', ''video'', ''audio'', ''pdf'', ''document'', ''archive'', ''other''}
   \<and> (\<not> startsWith (mime_type f) ''image/'' \<and> \<not> startsWith (mime_type f) ''video/''
        \<and> \<not> startsWith (mime_type f) ''audio/'' \<and> \<not> includes_str (mime_type f) ''pdf''
        \<and> \<not> includes_str (mime_type f) ''doc'' \<and> \<not> includes_str (mime_type f) ''zip''
        \<and> \<not> includes_str (mime_type f) ''rar''
       \<longrightarrow> getFileCategory f = ''other'')"
proof -
  have view: "filteredAndSortedFiles lc now doc_sample [] ''document'' key ord = [doc_sample ! 2]"
    by (simp add: filteredAndSortedFiles_def matches_def getFileCategory_def doc_sample_def
        example_file_def startsWith_def toLowerCase_def array_sort_def)
  show ?thesis
    using view by (simp add: getFileCategory_def Let_def)
qed

text \<open>C9, witness. The theorem at the pdf file of the example and at a plain text file.\<close>

theorem category_of_pdf_witness:
  "includes_str (mime_type (doc_sample ! 0)) ''pdf''
   \<and> \<not> startsWith (mime_type (doc_sample ! 0)) ''image/''
   \<and> \<not> startsWith (mime_type (doc_sample ! 0)) ''video/''
   \<and> \<not> startsWith (mime_type (doc_sample ! 0)) ''audio/''
   \<and> getFileCategory (doc_sample ! 0) = ''pdf''
   \<and> getFileCategory (doc_sample ! 0) \<noteq> ''document''
   \<and> getFileCategory (doc_sample ! 2) = ''document''
   \<and> filteredAndSortedFiles no_locale 0 doc_sample [] ''document'' ByName Asc = [doc_sample ! 2]
   \<and> getFileCategory (size_sample ! 0) = ''other''"
proof -
  have h1: "includes_str (mime_type (doc_sample ! 0)) ''pdf''"
    and h2: "\<not> startsWith (mime_type (doc_sample ! 0)) ''image/''"
    and h3: "\<not> startsWith (mime_type (doc_sample ! 0)) ''video/''"
    and h4: "\<not> startsWith (mime_type (doc_sample ! 0)) ''audio/''"
    by (simp_all add: doc_sample_def example_file_def startsWith_def)
  have h5: "\<not> startsWith (mime_type (size_sample ! 0)) ''image/''
        \<and> \<not> startsWith (mime_type (size_sample ! 0)) ''video/''
        \<and> \<not> startsWith (mime_type (size_sample ! 0)) ''audio/''
        \<and> \<not> includes_str (mime_type (size_sample ! 0)) ''pdf''
        \<and> \<not> includes_str (mime_type (size_sample ! 0)) ''doc''
        \<and> \<not> includes_str (mime_type (size_sample ! 0)) ''zip''
        \<and> \<not> includes_str (mime_type (size_sample ! 0)) ''rar''"
    by (simp add: size_sample_def example_file_def startsWith_def)
  have d: "getFileCategory (doc_sample ! 2) = ''document''"
    by (simp add: getFileCategory_def doc_sample_def example_file_def startsWith_def)
  from category_of_pdf [of "doc_sample ! 0" no_locale 0 ByName Asc]
       category_of_pdf [of "size_sample ! 0" no_locale 0 ByName Asc]
       h1 h2 h3 h4 h5 d
  show ?thesis by simp
qed

text \<open>
  C9 as stated fails: the mime type "image/pdf" contains "pdf" and is classified as
  image.
\<close>

theorem pdf_typed_image_is_image:
  "includes_str (mime_type pdf_as_image) ''pdf''
   \<and> getFileCategory pdf_as_image = ''image''
   \<and> getFileCategory pdf_as_image \<noteq> ''pdf''"
  by (simp add: pdf_as_image_def example_file_def getFileCategory_def startsWith_def)

end
